theory Spec2Isabelle
  imports Main
begin

section \<open>The Firebase storage client: paths, archives, local disk and bucket\<close>

text \<open>
  A shallow embedding of \<^verbatim>\<open>src/fireBaseStorage.py\<close> (class
  \<^verbatim>\<open>FireBaseStorageClient\<close>). The module is straight-line code over three
  collaborators: the POSIX path functions of \<^verbatim>\<open>os.path\<close>, the
  \<^verbatim>\<open>tarfile\<close> library working on the local disk, and the blob handle of the
  cloud SDK. Each of them is written out below at the level the module uses it.

  Scope of the model.
  \<^item> Strings are Python \<^verbatim>\<open>str\<close> values made of ASCII characters, for which the
    word characters of the pattern \<^verbatim>\<open>\w\<close> are the letters, the digits and the
    underscore.
  \<^item> The local disk maps a path, as spelled, to the content of the regular file stored
    there, and keeps the set of directories apart. Two spellings are two files; links,
    permissions and disk space are outside the model. \<^verbatim>\<open>os.mkdir\<close> and the
    opening of the download target resolve the directories on the way to their path and
    raise as the host does; the writes of \<^verbatim>\<open>tarfile\<close> go to the directory of the
    file being archived or extracted and are not checked.
  \<^item> A tar archive is its compression level and its list of regular-file members
    (stored name, content). Extraction writes a member at
    \<^verbatim>\<open>os.path.join(dest, name)\<close>; intermediate directories and extraction filters
    are outside the model.
  \<^item> The SDK is a parameter: any behaviour of upload, download and delete over an
    arbitrary remote state \<open>'r\<close>.
\<close>

subsection \<open>Exceptions and effects\<close>

datatype exn =
    FileNotFoundError string
  | IsADirectoryError
  | NotADirectoryError
  | FileExistsError
  | ReadError
  | NotFound
  | SdkError string

text \<open>
  A statement of the source runs in a state and either raises or returns a value; the
  state it leaves behind is kept in both cases.
\<close>

type_synonym ('a, 's) eff = "'s \<Rightarrow> (exn + 'a) \<times> 's"

definition ret :: "'a \<Rightarrow> ('a, 's) eff" where
  "ret x = (\<lambda>s. (Inr x, s))"

definition throw :: "exn \<Rightarrow> ('a, 's) eff" where
  "throw e = (\<lambda>s. (Inl e, s))"

definition bind :: "('a, 's) eff \<Rightarrow> ('a \<Rightarrow> ('b, 's) eff) \<Rightarrow> ('b, 's) eff" where
  "bind m f = (\<lambda>s. case m s of (Inl e, s') \<Rightarrow> (Inl e, s') | (Inr x, s') \<Rightarrow> f x s')"

subsection \<open>\<^verbatim>\<open>os.path\<close> (posixpath)\<close>

definition sep :: char where
  "sep = CHR ''/''"

definition rstrip_sep :: "string \<Rightarrow> string" where
  "rstrip_sep s = rev (dropWhile (\<lambda>c. c = sep) (rev s))"

text \<open>
  \<^verbatim>\<open>os.path.split(p)\<close>: \<^verbatim>\<open>i = p.rfind('/') + 1; head, tail = p[:i], p[i:]\<close>, and
  the trailing slashes of \<^verbatim>\<open>head\<close> are stripped unless it consists of slashes only.
\<close>

definition os_path_split :: "string \<Rightarrow> string \<times> string" where
  "os_path_split p =
     (let head = rev (dropWhile (\<lambda>c. c \<noteq> sep) (rev p));
          tail = rev (takeWhile (\<lambda>c. c \<noteq> sep) (rev p))
      in (if head \<noteq> [] \<and> head \<noteq> replicate (length head) sep then rstrip_sep head else head,
          tail))"

text \<open>\<^verbatim>\<open>os.path.basename(p)\<close>: \<^verbatim>\<open>p[p.rfind('/') + 1:]\<close>.\<close>

definition os_path_basename :: "string \<Rightarrow> string" where
  "os_path_basename p = rev (takeWhile (\<lambda>c. c \<noteq> sep) (rev p))"

text \<open>
  \<^verbatim>\<open>os.path.join(a, b)\<close>: an absolute \<^verbatim>\<open>b\<close> replaces \<^verbatim>\<open>a\<close>; otherwise \<^verbatim>\<open>b\<close>
  is appended, after a slash unless \<^verbatim>\<open>a\<close> is empty or already ends with one.
\<close>

definition os_path_join :: "string \<Rightarrow> string \<Rightarrow> string" where
  "os_path_join a b =
     (if b \<noteq> [] \<and> hd b = sep then b
      else if a = [] \<or> last a = sep then a @ b
      else a @ sep # b)"

subsection \<open>\<^verbatim>\<open>re.sub(r'.\w+$', '.tar.gz', tail)\<close>\<close>

definition is_word :: "char \<Rightarrow> bool" where
  "is_word c =
     (let n = (of_char c :: nat)
      in (97 \<le> n \<and> n \<le> 122) \<or> (65 \<le> n \<and> n \<le> 90) \<or> (48 \<le> n \<and> n \<le> 57) \<or> n = 95)"

definition newline :: char where
  "newline = CHR 0x0A"

text \<open>
  The pattern matches at the position of \<open>c\<close>, with \<open>r\<close> the rest of the string, when
  \<open>c\<close> is not a newline (\<^verbatim>\<open>.\<close>), at least one word character follows (\<^verbatim>\<open>\w+\<close>,
  greedy) and the run of word characters reaches the end of the string or the newline
  that ends it (\<^verbatim>\<open>$\<close>). A shorter run is followed by a word character, where
  \<^verbatim>\<open>$\<close> cannot hold, so backtracking adds no match.
\<close>

definition matches_here :: "char \<Rightarrow> string \<Rightarrow> bool" where
  "matches_here c r =
     (c \<noteq> newline \<and> takeWhile is_word r \<noteq> []
      \<and> (dropWhile is_word r = [] \<or> dropWhile is_word r = [newline]))"

text \<open>
  \<^verbatim>\<open>re.sub\<close> scans from the left, replaces each match by the literal and goes on
  after it; a character where no match starts is copied.
\<close>

function re_sub_ext :: "string \<Rightarrow> string" where
  "re_sub_ext [] = []"
| "re_sub_ext (c # r) =
     (if matches_here c r then ''.tar.gz'' @ re_sub_ext (dropWhile is_word r)
      else c # re_sub_ext r)"
  by pat_completeness auto
termination
  by (relation "measure length") (auto simp: length_dropWhile_le le_imp_less_Suc)

subsection \<open>Local disk and \<^verbatim>\<open>tarfile\<close>\<close>

text \<open>
  The content of a regular file: plain bytes that \<^verbatim>\<open>tarfile.open\<close> rejects, an
  archive that was opened for writing and never closed, or a readable archive with its
  compression level and members.
\<close>

datatype content =
    Raw string
  | Partial
  | Tar nat "(string \<times> content) list"

record disk =
  files :: "string \<Rightarrow> content option"
  dirs :: "string set"

text \<open>
  Directories are kept under their spelling without trailing slashes. The root and the
  names \<^verbatim>\<open>.\<close> and \<^verbatim>\<open>..\<close> are directories of every disk; the empty head of a
  relative path stands for the current directory.
\<close>

definition is_root :: "string \<Rightarrow> bool" where
  "is_root p = (p \<noteq> [] \<and> p = replicate (length p) sep)"

definition isdir :: "string \<Rightarrow> disk \<Rightarrow> bool" where
  "isdir p d =
     (p \<noteq> [] \<and> (is_root p \<or> rstrip_sep p = ''.'' \<or> rstrip_sep p = ''..''
                 \<or> rstrip_sep p \<in> dirs d))"

definition os_path_exists :: "string \<Rightarrow> disk \<Rightarrow> bool" where
  "os_path_exists p d = (files d p \<noteq> None \<or> isdir p d)"

definition write_file :: "string \<Rightarrow> content \<Rightarrow> disk \<Rightarrow> disk" where
  "write_file p c d = d\<lparr>files := (files d)(p \<mapsto> c)\<rparr>"

definition enoent :: exn where
  "enoent = FileNotFoundError ''[Errno 2] No such file or directory''"

definition read_file :: "string \<Rightarrow> (content, disk) eff" where
  "read_file p = (\<lambda>d. case files d p of
       Some c \<Rightarrow> (Inr c, d)
     | None \<Rightarrow> (Inl (if isdir p d then IsADirectoryError else enoent), d))"

definition os_remove :: "string \<Rightarrow> (unit, disk) eff" where
  "os_remove p = (\<lambda>d. case files d p of
       Some c \<Rightarrow> (Inr (), d\<lparr>files := (files d)(p := None)\<rparr>)
     | None \<Rightarrow> (Inl (if isdir p d then IsADirectoryError else enoent), d))"

text \<open>
  The directories a path goes through: every prefix of the path that is followed by a
  slash and does not itself end with one, outermost first. The host resolves them in
  this order and stops at the first that is a regular file (\<^verbatim>\<open>ENOTDIR\<close>) or is
  missing (\<^verbatim>\<open>ENOENT\<close>).
\<close>

fun dir_prefixes :: "string \<Rightarrow> string \<Rightarrow> string list" where
  "dir_prefixes acc [] = []"
| "dir_prefixes acc (c # cs) =
     (if c = sep \<and> acc \<noteq> [] \<and> last acc \<noteq> sep then acc # dir_prefixes (acc @ [c]) cs
      else dir_prefixes (acc @ [c]) cs)"

fun check_dirs :: "string list \<Rightarrow> disk \<Rightarrow> exn option" where
  "check_dirs [] d = None"
| "check_dirs (a # as) d =
     (case files d a of
        Some c \<Rightarrow> Some NotADirectoryError
      | None \<Rightarrow> if isdir a d then check_dirs as d else Some enoent)"

text \<open>
  \<^verbatim>\<open>os.mkdir(p)\<close>: the directories on the way to \<open>p\<close> must exist, and \<open>p\<close> itself
  must not.
\<close>

definition os_mkdir :: "string \<Rightarrow> (unit, disk) eff" where
  "os_mkdir p = (\<lambda>d.
     if p = [] then (Inl enoent, d)
     else (case check_dirs (dir_prefixes [] (rstrip_sep p)) d of
             Some e \<Rightarrow> (Inl e, d)
           | None \<Rightarrow>
               (case files d (rstrip_sep p) of
                  Some c \<Rightarrow> (Inl FileExistsError, d)
                | None \<Rightarrow>
                    if os_path_exists p d then (Inl FileExistsError, d)
                    else (Inr (), d\<lparr>dirs := insert (rstrip_sep p) (dirs d)\<rparr>))))"

text \<open>
  \<^verbatim>\<open>open(p, 'wb')\<close>: the directories on the way to \<open>p\<close> must exist and \<open>p\<close> must
  not name a directory; the file is created, or emptied when it exists.
\<close>

definition open_wb :: "string \<Rightarrow> (unit, disk) eff" where
  "open_wb p = (\<lambda>d.
     if p = [] then (Inl enoent, d)
     else (case check_dirs (dir_prefixes [] (rstrip_sep p)) d of
             Some e \<Rightarrow> (Inl e, d)
           | None \<Rightarrow>
               if last p = sep \<or> isdir p d then (Inl IsADirectoryError, d)
               else (Inr (), write_file p (Raw []) d)))"

text \<open>
  \<^verbatim>\<open>tarfile.open(path)\<close> followed by \<^verbatim>\<open>getmembers()\<close>: the members of a readable
  archive.
\<close>

definition tarfile_open :: "string \<Rightarrow> ((string \<times> content) list, disk) eff" where
  "tarfile_open p = bind (read_file p) (\<lambda>c. case c of
       Tar lvl ms \<Rightarrow> ret ms
     | Raw b \<Rightarrow> throw ReadError
     | Partial \<Rightarrow> throw ReadError)"

text \<open>\<^verbatim>\<open>tf.extractall(path=dest)\<close>: every member in order, each written at its joined path.\<close>

fun extractall :: "string \<Rightarrow> (string \<times> content) list \<Rightarrow> disk \<Rightarrow> disk" where
  "extractall dest [] d = d"
| "extractall dest ((name, c) # ms) d = extractall dest ms (write_file (os_path_join dest name) c d)"

subsection \<open>The archive helpers of the client\<close>

text \<open>
  \<^verbatim>\<open>_archive_file(self, path)\<close>, lines 45 to 58. \<^verbatim>\<open>gzopen(..., mode='w')\<close> creates or
  truncates the archive file at once; \<^verbatim>\<open>tar.add\<close> skips a file that is the archive
  itself and raises when the file is missing; \<^verbatim>\<open>tar.close\<close> completes the archive.
  The input is a regular file or is missing: archiving a directory is outside the model.
\<close>

definition archive_file :: "string \<Rightarrow> (string, disk) eff" where
  "archive_file path =
     (let (head, tail) = os_path_split path;
          output_filename = re_sub_ext tail;
          name = os_path_join head output_filename
      in (\<lambda>d.
          let d1 = write_file name Partial d
          in if path = name then (Inr name, write_file name (Tar 5 []) d1)
             else (case read_file path d1 of
                     (Inl e, d2) \<Rightarrow> (Inl e, d2)
                   | (Inr c, d2) \<Rightarrow>
                       (Inr name, write_file name (Tar 5 [(os_path_basename path, c)]) d2))))"

text \<open>The path at which \<^verbatim>\<open>_archive_file\<close> puts the archive of \<open>path\<close>.\<close>

definition archive_name :: "string \<Rightarrow> string" where
  "archive_name path =
     os_path_join (fst (os_path_split path)) (re_sub_ext (snd (os_path_split path)))"

text \<open>The guarded removal \<^verbatim>\<open>if os.path.exists(p): os.remove(p)\<close>.\<close>

definition remove_if_exists :: "string \<Rightarrow> (unit, disk) eff" where
  "remove_if_exists p = (\<lambda>d. if os_path_exists p d then os_remove p d else (Inr (), d))"

text \<open>
  \<^verbatim>\<open>_extract(self, path)\<close>, lines 60 to 78. The member count is tested before
  anything is extracted; the archive is removed only after \<^verbatim>\<open>extractall\<close>.
\<close>

definition extract_file :: "string \<Rightarrow> (string, disk) eff" where
  "extract_file path =
     (let (head, tail) = os_path_split path
      in bind (tarfile_open path) (\<lambda>members.
           bind (if length members = 1 then ret (fst (members ! 0))
                 else throw (FileNotFoundError ''Cant recognize name of file'')) (\<lambda>filename.
             bind (\<lambda>d. (Inr (), extractall head members d)) (\<lambda>_.
               bind (remove_if_exists path) (\<lambda>_.
                 ret (os_path_join head filename))))))"

subsection \<open>The bucket handle of the SDK\<close>

text \<open>
  The blob operations of the cloud SDK are not part of the repository. They are taken
  as a parameter: each acts on a remote state \<open>'r\<close> and may raise. The last field
  says for which exceptions \<^verbatim>\<open>download_to_filename\<close> removes the local file it
  had opened (releases of the SDK differ on this).
\<close>

record 'r sdk =
  blob_upload :: "string \<Rightarrow> content \<Rightarrow> (unit, 'r) eff"
  blob_download :: "string \<Rightarrow> (content, 'r) eff"
  blob_delete :: "string \<Rightarrow> (unit, 'r) eff"
  removes_partial :: "exn \<Rightarrow> bool"

text \<open>The world of a call: the local disk and the remote state.\<close>

definition on_disk :: "('a, disk) eff \<Rightarrow> ('a, disk \<times> 'r) eff" where
  "on_disk m = (\<lambda>(d, r). case m d of (x, d') \<Rightarrow> (x, (d', r)))"

definition on_remote :: "('a, 'r) eff \<Rightarrow> ('a, disk \<times> 'r) eff" where
  "on_remote m = (\<lambda>(d, r). case m r of (x, r') \<Rightarrow> (x, (d, r')))"

text \<open>
  \<^verbatim>\<open>blob.upload_from_filename(filename)\<close> opens the local file for reading and
  sends its content.
\<close>

definition upload_from_filename :: "'r sdk \<Rightarrow> string \<Rightarrow> string \<Rightarrow> (unit, disk \<times> 'r) eff" where
  "upload_from_filename b url filename =
     bind (on_disk (read_file filename)) (\<lambda>c. on_remote (blob_upload b url c))"

text \<open>
  \<^verbatim>\<open>blob.download_to_filename(filename)\<close> opens the local file for writing, which
  creates or empties it, and then fetches the object into it. When the file cannot be
  opened the exception of \<^verbatim>\<open>open\<close> is raised and no request is made.
\<close>

definition download_to_filename :: "'r sdk \<Rightarrow> string \<Rightarrow> string \<Rightarrow> (unit, disk \<times> 'r) eff" where
  "download_to_filename b url filename =
     (\<lambda>(d, r).
        case open_wb filename d of
          (Inl e, d') \<Rightarrow> (Inl e, (d', r))
        | (Inr u, d1) \<Rightarrow>
            (case blob_download b url r of
               (Inl e, r') \<Rightarrow>
                 (Inl e, (if removes_partial b e then d1\<lparr>files := (files d1)(filename := None)\<rparr>
                          else d1, r'))
             | (Inr c, r') \<Rightarrow> (Inr (), (write_file filename c d1, r'))))"

subsection \<open>The client\<close>

record 'r client =
  bucket :: "'r sdk"
  folder :: "string option"

text \<open>
  Lines 92 to 95 of \<^verbatim>\<open>upload_file\<close>: the remote key of a file name. The test
  \<^verbatim>\<open>if self.folder\<close> is Python truthiness: \<^verbatim>\<open>None\<close> and the empty string both
  fail it.
\<close>

definition remote_key :: "string option \<Rightarrow> string \<Rightarrow> string" where
  "remote_key fld file_name =
     (case fld of
        Some f \<Rightarrow> if f \<noteq> [] then f @ ''/'' @ file_name else file_name
      | None \<Rightarrow> file_name)"

text \<open>\<^verbatim>\<open>upload_file(self, file, archive=False)\<close>, lines 80 to 104.\<close>

definition upload_file :: "'r client \<Rightarrow> string \<Rightarrow> bool \<Rightarrow> (string, disk \<times> 'r) eff" where
  "upload_file self file archive =
     bind (if archive then on_disk (archive_file file) else ret file) (\<lambda>tar.
       let (head, file_name) = os_path_split tar;
           url = remote_key (folder self) file_name
       in bind (upload_from_filename (bucket self) url tar) (\<lambda>_.
            bind (on_disk (remove_if_exists file)) (\<lambda>_.
              bind (on_disk (remove_if_exists tar)) (\<lambda>_.
                ret url))))"

text \<open>
  \<^verbatim>\<open>download_file(self, url, to_path, extract=False)\<close>, lines 106 to 128. The
  directory step of lines 119 and 120 is outside the \<^verbatim>\<open>try\<close>: what
  \<^verbatim>\<open>os.mkdir\<close> raises leaves the function as it is. The \<^verbatim>\<open>try\<close> around the
  download turns the SDK's \<^verbatim>\<open>NotFound\<close> into a \<^verbatim>\<open>FileNotFoundError\<close> and lets
  every other exception through, those of the local \<^verbatim>\<open>open\<close> included.
\<close>

definition download_file :: "'r client \<Rightarrow> string \<Rightarrow> string \<Rightarrow> bool \<Rightarrow> (string, disk \<times> 'r) eff" where
  "download_file self url to_path extract =
     bind (on_disk (\<lambda>d. if \<not> os_path_exists to_path d then os_mkdir to_path d else (Inr (), d))) (\<lambda>_.
       let (head, file) = os_path_split url;
           path = os_path_join to_path file
       in bind (\<lambda>w. case download_to_filename (bucket self) url path w of
                       (Inl e, w') \<Rightarrow>
                         (if e = NotFound then (Inl (FileNotFoundError ''File not found on server''), w')
                          else (Inl e, w'))
                     | (Inr u, w') \<Rightarrow> (Inr u, w')) (\<lambda>_.
            bind (if extract then on_disk (extract_file path) else ret path) (\<lambda>extract_path.
              ret extract_path)))"

text \<open>\<^verbatim>\<open>delete_file(self, url)\<close>, lines 130 to 139.\<close>

definition delete_file :: "'r client \<Rightarrow> string \<Rightarrow> (unit, disk \<times> 'r) eff" where
  "delete_file self url = on_remote (blob_delete (bucket self) url)"

text \<open>
  A bucket kept in memory, used to run the client on concrete inputs: objects by key;
  download and delete of a missing key raise \<^verbatim>\<open>NotFound\<close>. With \<open>fault = Some e\<close>
  every upload raises \<open>e\<close>.
\<close>

definition memory_bucket :: "exn option \<Rightarrow> (string \<Rightarrow> content option) sdk" where
  "memory_bucket fault =
     \<lparr> blob_upload = (\<lambda>url c r. case fault of Some e \<Rightarrow> (Inl e, r) | None \<Rightarrow> (Inr (), r(url \<mapsto> c))),
       blob_download = (\<lambda>url r. case r url of Some c \<Rightarrow> (Inr c, r) | None \<Rightarrow> (Inl NotFound, r)),
       blob_delete = (\<lambda>url r. case r url of Some c \<Rightarrow> (Inr (), r(url := None)) | None \<Rightarrow> (Inl NotFound, r)),
       removes_partial = (\<lambda>e. False) \<rparr>"

text \<open>A disk given by the list of its files and the list of its directories.\<close>

definition disk_of :: "(string \<times> content) list \<Rightarrow> string list \<Rightarrow> disk" where
  "disk_of fs ds = \<lparr>files = map_of fs, dirs = set ds\<rparr>"

text \<open>
  The two helpers composed: archive a file and extract the archive again, as an upload
  with \<^verbatim>\<open>archive=True\<close> followed by a download with \<^verbatim>\<open>extract=True\<close> does on
  the two disks; and the longer chain that archives the extracted file once more.
\<close>

definition extract_archived :: "string \<Rightarrow> (string, disk) eff" where
  "extract_archived path = bind (archive_file path) extract_file"

definition archive_extract_archive :: "string \<Rightarrow> (string, disk) eff" where
  "archive_extract_archive path =
     bind (archive_file path) (\<lambda>a. bind (extract_file a) archive_file)"

section \<open>Auxiliary facts\<close>

subsection \<open>Effects\<close>

lemma bind_Inr_iff:
  "bind m f s = (Inr y, t) \<longleftrightarrow> (\<exists>x s'. m s = (Inr x, s') \<and> f x s' = (Inr y, t))"
  by (auto simp: bind_def split: prod.splits sum.splits)

lemma on_disk_apply: "on_disk m (d, r) = (fst (m d), (snd (m d), r))"
  by (simp add: on_disk_def split_beta)

lemma on_remote_apply: "on_remote m (d, r) = (fst (m r), (d, snd (m r)))"
  by (simp add: on_remote_def split_beta)

subsection \<open>Paths\<close>

lemma snd_split_basename: "snd (os_path_split p) = os_path_basename p"
  by (simp add: os_path_split_def os_path_basename_def Let_def)

lemma tail_no_sep: "sep \<notin> set (snd (os_path_split p))"
proof -
  have "\<forall>x \<in> set (takeWhile (\<lambda>c. c \<noteq> sep) (rev p)). x \<noteq> sep"
    using set_takeWhileD by fastforce
  then show ?thesis by (auto simp: os_path_split_def Let_def)
qed

lemma takeWhile_not_sep:
  "sep \<notin> set t \<Longrightarrow> takeWhile (\<lambda>c. c \<noteq> sep) (rev t @ sep # ys) = rev t"
  by (induction t rule: rev_induct) auto

lemma dropWhile_not_sep:
  "sep \<notin> set t \<Longrightarrow> dropWhile (\<lambda>c. c \<noteq> sep) (rev t @ sep # ys) = sep # ys"
  by (induction t rule: rev_induct) auto

lemma split_no_sep:
  assumes "sep \<notin> set t"
  shows "os_path_split t = ([], t)"
proof -
  have tw: "takeWhile (\<lambda>c. c \<noteq> sep) (rev t) = rev t"
    using assms by (induction t rule: rev_induct) auto
  have dw: "dropWhile (\<lambda>c. c \<noteq> sep) (rev t) = []"
    using assms by (induction t rule: rev_induct) auto
  show ?thesis unfolding os_path_split_def Let_def tw dw by simp
qed

lemma split_after_seps:
  assumes "sep \<notin> set t" and "h = replicate (Suc n) sep"
  shows "os_path_split (h @ t) = (h, t)"
proof -
  have r: "rev (h @ t) = rev t @ sep # replicate n sep"
    by (simp add: assms(2) replicate_append_same)
  have hh: "h = replicate n sep @ [sep]"
    by (simp add: assms(2) replicate_append_same)
  have tw: "takeWhile (\<lambda>c. c \<noteq> sep) (rev (h @ t)) = rev t"
    unfolding r using assms(1) by (rule takeWhile_not_sep)
  have dw: "dropWhile (\<lambda>c. c \<noteq> sep) (rev (h @ t)) = sep # replicate n sep"
    unfolding r using assms(1) by (rule dropWhile_not_sep)
  have e: "rev (sep # replicate n sep) = h" using hh by simp
  have l: "replicate (length h) sep = h" using assms(2) by simp
  show ?thesis
    unfolding os_path_split_def Let_def tw dw e l by simp
qed

lemma split_after_dir:
  assumes "sep \<notin> set t" and "h \<noteq> []" and "last h \<noteq> sep"
  shows "os_path_split (h @ sep # t) = (h, t)"
proof -
  have r: "rev (h @ sep # t) = rev t @ sep # rev h" by simp
  have tw: "takeWhile (\<lambda>c. c \<noteq> sep) (rev (h @ sep # t)) = rev t"
    unfolding r using assms(1) by (rule takeWhile_not_sep)
  have dw: "dropWhile (\<lambda>c. c \<noteq> sep) (rev (h @ sep # t)) = sep # rev h"
    unfolding r using assms(1) by (rule dropWhile_not_sep)
  have ne: "h @ [sep] \<noteq> replicate (length (h @ [sep])) sep"
  proof
    assume "h @ [sep] = replicate (length (h @ [sep])) sep"
    then have "h @ [sep] = replicate (length h) sep @ [sep]"
      by (simp add: replicate_append_same)
    then have "h = replicate (length h) sep" by simp
    then have "last h = last (replicate (length h) sep)" by simp
    then have "last h = sep" using assms(2) by simp
    then show False using assms(3) by simp
  qed
  obtain x xs where rh: "rev h = x # xs" using assms(2) by (cases "rev h") simp_all
  then have h': "h = rev xs @ [x]" using arg_cong [OF rh, of rev] by simp
  then have "x \<noteq> sep" using assms(3) by simp
  then have rs: "rstrip_sep (h @ [sep]) = h"
    by (simp add: rstrip_sep_def h')
  have e: "rev (sep # rev h) = h @ [sep]" by simp
  show ?thesis
    unfolding os_path_split_def Let_def tw dw e using ne rs by simp
qed

text \<open>
  The head that \<^verbatim>\<open>os.path.split\<close> returns is empty, made of slashes only, or ends
  with another character.
\<close>

lemma head_shape:
  "fst (os_path_split p) = [] \<or> (\<exists>n. fst (os_path_split p) = replicate (Suc n) sep)
   \<or> (fst (os_path_split p) \<noteq> [] \<and> last (fst (os_path_split p)) \<noteq> sep)"
proof -
  define h0 where "h0 = rev (dropWhile (\<lambda>c. c \<noteq> sep) (rev p))"
  have f: "fst (os_path_split p) =
      (if h0 \<noteq> [] \<and> h0 \<noteq> replicate (length h0) sep then rstrip_sep h0 else h0)"
    unfolding os_path_split_def Let_def h0_def by (simp only: fst_conv)
  show ?thesis
  proof (cases "h0 \<noteq> [] \<and> h0 \<noteq> replicate (length h0) sep")
    case False
    then have e: "fst (os_path_split p) = h0" by (auto simp: f)
    from False have "h0 = [] \<or> h0 = replicate (length h0) sep" by blast
    then show ?thesis
    proof
      assume "h0 = []"
      then show ?thesis using e by simp
    next
      assume a: "h0 = replicate (length h0) sep"
      show ?thesis
      proof (cases "length h0")
        case 0
        then show ?thesis using e by simp
      next
        case (Suc n)
        then have "fst (os_path_split p) = replicate (Suc n) sep" using e a by simp
        then show ?thesis by blast
      qed
    qed
  next
    case True
    then have e: "fst (os_path_split p) = rstrip_sep h0" by (simp add: f)
    have "\<not> (\<forall>y\<in>set h0. y = sep)"
      using True replicate_eqI [of h0 "length h0" sep] by blast
    then obtain x where x: "x \<in> set (rev h0)" "x \<noteq> sep" by auto
    have ne: "dropWhile (\<lambda>c. c = sep) (rev h0) \<noteq> []"
      using x by (auto simp: dropWhile_eq_Nil_conv)
    then have "hd (dropWhile (\<lambda>c. c = sep) (rev h0)) \<noteq> sep"
      using hd_dropWhile [of "\<lambda>c. c = sep" "rev h0"] by blast
    then have "last (rstrip_sep h0) \<noteq> sep" using ne by (simp add: rstrip_sep_def last_rev)
    moreover have "rstrip_sep h0 \<noteq> []" using ne by (simp add: rstrip_sep_def)
    ultimately show ?thesis using e by simp
  qed
qed

lemma join_no_sep:
  "sep \<notin> set t \<Longrightarrow>
     os_path_join h t = (if h = [] \<or> last h = sep then h @ t else h @ sep # t)"
  by (cases t) (auto simp: os_path_join_def)

text \<open>Joining a head of \<^verbatim>\<open>os.path.split\<close> with a slash-free name and splitting again.\<close>

lemma split_join_head:
  assumes "sep \<notin> set t"
  shows "os_path_split (os_path_join (fst (os_path_split p)) t) = (fst (os_path_split p), t)"
proof -
  define h where "h = fst (os_path_split p)"
  note j = join_no_sep [OF assms, of h]
  consider "h = []" | n where "h = replicate (Suc n) sep" | "h \<noteq> []" "last h \<noteq> sep"
    using head_shape [of p] unfolding h_def by blast
  then have "os_path_split (os_path_join h t) = (h, t)"
  proof cases
    case 1
    then have "os_path_join h t = t" unfolding j by simp
    then show ?thesis using 1 assms by (simp add: split_no_sep)
  next
    case 2
    then have "last h = sep" by simp
    then have "os_path_join h t = h @ t" unfolding j by simp
    then show ?thesis using split_after_seps [OF assms 2] by simp
  next
    case 3
    then have "os_path_join h t = h @ sep # t" unfolding j by simp
    then show ?thesis using split_after_dir [OF assms 3] by simp
  qed
  then show ?thesis by (simp add: h_def)
qed

lemma join_inject:
  assumes "sep \<notin> set a" and "sep \<notin> set b" and "os_path_join h a = os_path_join h b"
  shows "a = b"
  using assms(3) unfolding join_no_sep [OF assms(1)] join_no_sep [OF assms(2)]
  by (cases "h = [] \<or> last h = sep") simp_all

lemma basename_join:
  assumes "sep \<notin> set t"
  shows "os_path_basename (os_path_join (fst (os_path_split p)) t) = t"
proof -
  have "snd (os_path_split (os_path_join (fst (os_path_split p)) t)) = t"
    using split_join_head [OF assms, of p] by simp
  then show ?thesis by (simp add: snd_split_basename)
qed

subsection \<open>The pattern on a name with an extension\<close>

lemma not_word_dot: "\<not> is_word CHR ''.''"
  by (simp add: is_word_def)

lemma dropWhile_before_dot:
  "\<exists>xs. dropWhile is_word (s @ CHR ''.'' # ext) = xs @ CHR ''.'' # ext"
proof (induction s)
  case Nil
  have "dropWhile is_word (CHR ''.'' # ext) = [] @ CHR ''.'' # ext" by (simp add: not_word_dot)
  then show ?case by (simp only: append_Nil) blast
next
  case (Cons a s)
  then obtain xs where xs: "dropWhile is_word (s @ CHR ''.'' # ext) = xs @ CHR ''.'' # ext" by blast
  show ?case
  proof (cases "is_word a")
    case True
    then show ?thesis using xs by auto
  next
    case False
    then have "dropWhile is_word ((a # s) @ CHR ''.'' # ext) = (a # s) @ CHR ''.'' # ext" by simp
    then show ?thesis by blast
  qed
qed

lemma no_match_before_dot:
  assumes "ext \<noteq> []"
  shows "\<not> matches_here c (s @ CHR ''.'' # ext)"
proof -
  obtain xs where xs: "dropWhile is_word (s @ CHR ''.'' # ext) = xs @ CHR ''.'' # ext"
    using dropWhile_before_dot by blast
  have "xs @ CHR ''.'' # ext \<noteq> []" by simp
  moreover have "xs @ CHR ''.'' # ext \<noteq> [newline]"
    using assms by (cases xs) (auto simp: newline_def)
  ultimately show ?thesis unfolding matches_here_def xs by blast
qed

lemma re_sub_ext_conventional:
  assumes "ext \<noteq> []" and "\<forall>ch \<in> set ext. is_word ch"
  shows "re_sub_ext (stem @ ''.'' @ ext) = stem @ ''.tar.gz''"
proof (induction stem)
  case Nil
  have tw: "takeWhile is_word ext = ext" and dw: "dropWhile is_word ext = []"
    using assms(2) by (simp_all add: takeWhile_eq_all_conv)
  have m: "matches_here CHR ''.'' ext"
    unfolding matches_here_def tw dw using assms(1) by (simp add: newline_def)
  show ?case by (simp add: m dw)
next
  case (Cons c stem)
  have "\<not> matches_here c (stem @ CHR ''.'' # ext)" using assms(1) by (rule no_match_before_dot)
  then show ?case using Cons by simp
qed

subsection \<open>Disk operations and the helpers\<close>

lemma tarfile_open_Tar: "files d p = Some (Tar lvl ms) \<Longrightarrow> tarfile_open p d = (Inr ms, d)"
  by (simp add: tarfile_open_def bind_def read_file_def ret_def)

lemma remove_if_exists_Inr:
  "remove_if_exists p d = (Inr u, d') \<Longrightarrow> d' = d\<lparr>files := (files d)(p := None)\<rparr>"
  by (auto simp: remove_if_exists_def os_remove_def os_path_exists_def fun_upd_idem
      split: if_splits option.splits)

lemma archive_file_Inr:
  assumes "archive_file path d = (Inr a, d1)"
  shows "a = archive_name path" and "dirs d1 = dirs d"
    and "\<forall>p. p \<noteq> a \<longrightarrow> files d1 p = files d p"
    and "\<exists>ms. files d1 a = Some (Tar 5 ms)"
    and "files d1 path \<noteq> None"
  using assms
  by (auto simp: archive_file_def archive_name_def Let_def split_beta write_file_def read_file_def
      split: if_splits option.splits)

lemma upload_from_filename_disk: "fst (snd (upload_from_filename b url p (d, r))) = d"
  by (simp add: upload_from_filename_def bind_def on_disk_apply on_remote_apply read_file_def
      split: option.splits)

lemma upload_from_filename_Inr:
  "upload_from_filename b url p (d, r) = (Inr u, (d', r')) \<Longrightarrow> d' = d \<and> files d p \<noteq> None"
  by (auto simp: upload_from_filename_def bind_def on_disk_apply on_remote_apply read_file_def
      split: option.splits)

lemma download_to_filename_Inl:
  assumes "fst (open_wb p d) = Inr u" and "fst (blob_download b url r) = Inl e"
  shows "fst (download_to_filename b url p (d, r)) = Inl e"
  using assms
  by (cases "open_wb p d"; cases "blob_download b url r") (simp add: download_to_filename_def)

lemma check_dirs_not_NotFound: "check_dirs xs d = Some e \<Longrightarrow> e \<noteq> NotFound"
  by (induction xs) (auto simp: enoent_def split: option.splits if_splits)

lemma open_wb_not_NotFound:
  assumes "open_wb p d = (Inl e, d')"
  shows "e \<noteq> NotFound"
proof (cases "check_dirs (dir_prefixes [] (rstrip_sep p)) d")
  case None
  then show ?thesis
    using assms by (auto simp: open_wb_def enoent_def split: if_splits)
next
  case (Some x)
  then have "x \<noteq> NotFound" by (rule check_dirs_not_NotFound)
  then show ?thesis
    using assms Some by (auto simp: open_wb_def enoent_def split: if_splits)
qed

lemma download_to_filename_open_fails:
  assumes "open_wb p d = (Inl e, d')"
  shows "download_to_filename b url p (d, r) = (Inl e, (d', r))"
  using assms by (simp add: download_to_filename_def)

text \<open>What a successful \<^verbatim>\<open>upload_file\<close> has done, step by step.\<close>

lemma upload_file_success:
  assumes "upload_file self file archive (d, r) = (Inr url, (d', r'))"
  shows "\<exists>tar d1. (if archive then archive_file file d else (Inr file, d)) = (Inr tar, d1)
           \<and> url = remote_key (folder self) (snd (os_path_split tar))
           \<and> d' = d1\<lparr>files := (files d1)(file := None, tar := None)\<rparr>"
proof -
  from assms obtain tar w1 where
    s1: "(if archive then on_disk (archive_file file) else ret file) (d, r) = (Inr tar, w1)"
    and s2: "(let (head, file_name) = os_path_split tar;
           url = remote_key (folder self) file_name
       in bind (upload_from_filename (bucket self) url tar) (\<lambda>_.
            bind (on_disk (remove_if_exists file)) (\<lambda>_.
              bind (on_disk (remove_if_exists tar)) (\<lambda>_.
                ret url)))) w1 = (Inr url, (d', r'))"
    unfolding upload_file_def
      bind_Inr_iff [of "if archive then on_disk (archive_file file) else ret file"]
    by blast
  obtain d1 r1 where w1: "w1 = (d1, r1)" by (cases w1)
  define key where "key = remote_key (folder self) (snd (os_path_split tar))"
  from s2 have s2': "bind (upload_from_filename (bucket self) key tar) (\<lambda>_.
            bind (on_disk (remove_if_exists file)) (\<lambda>_.
              bind (on_disk (remove_if_exists tar)) (\<lambda>_.
                ret key))) (d1, r1) = (Inr url, (d', r'))"
    by (simp add: split_beta Let_def key_def w1)
  then obtain u w2 where
    s3: "upload_from_filename (bucket self) key tar (d1, r1) = (Inr u, w2)"
    and s4: "bind (on_disk (remove_if_exists file)) (\<lambda>_.
              bind (on_disk (remove_if_exists tar)) (\<lambda>_.
                ret key)) w2 = (Inr url, (d', r'))"
    unfolding bind_Inr_iff [of "upload_from_filename (bucket self) key tar"] by blast
  obtain d2 r2 where w2: "w2 = (d2, r2)" by (cases w2)
  from s3 have d2: "d2 = d1"
    using upload_from_filename_Inr [where b="bucket self" and url=key and p=tar and d=d1
        and r=r1 and d'=d2 and r'=r2]
    by (simp add: w2)
  from s4 obtain u3 w3 where
    s5: "on_disk (remove_if_exists file) w2 = (Inr u3, w3)"
    and s6: "bind (on_disk (remove_if_exists tar)) (\<lambda>_. ret key) w3 = (Inr url, (d', r'))"
    unfolding bind_Inr_iff [of "on_disk (remove_if_exists file)"] by blast
  obtain d3 r3 where w3: "w3 = (d3, r3)" by (cases w3)
  from s5 have d3: "d3 = d1\<lparr>files := (files d1)(file := None)\<rparr>"
    using remove_if_exists_Inr [where p="file" and d=d1 and d'=d3]
    by (simp add: on_disk_apply d2 w2 w3 prod_eq_iff)
  from s6 obtain u4 w4 where
    s7: "on_disk (remove_if_exists tar) w3 = (Inr u4, w4)"
    and s8: "ret key w4 = (Inr url, (d', r'))"
    unfolding bind_Inr_iff [of "on_disk (remove_if_exists tar)"] by blast
  obtain d4 r4 where w4: "w4 = (d4, r4)" by (cases w4)
  from s7 have d4: "d4 = d3\<lparr>files := (files d3)(tar := None)\<rparr>"
    using remove_if_exists_Inr [where p=tar and d=d3 and d'=d4]
    by (simp add: on_disk_apply w3 w4 prod_eq_iff)
  from s8 have d': "d' = d4" and u: "url = key" by (simp_all add: ret_def w4)
  have "(if archive then archive_file file d else (Inr file, d)) = (Inr tar, d1)"
    using s1 by (cases archive) (simp_all add: on_disk_apply ret_def w1 prod_eq_iff)
  moreover have "d' = d1\<lparr>files := (files d1)(file := None, tar := None)\<rparr>"
    by (simp add: d' d4 d3)
  ultimately show ?thesis using u key_def by blast
qed

lemma upload_file_key:
  assumes "upload_file self file archive (d, r) = (Inr url, w')"
  shows "url = remote_key (folder self)
           (os_path_basename (if archive then archive_name file else file))"
proof -
  obtain d' r' where w': "w' = (d', r')" by (cases w')
  from upload_file_success [OF assms [unfolded w']] obtain tar d1 where
    a: "(if archive then archive_file file d else (Inr file, d)) = (Inr tar, d1)"
    and u: "url = remote_key (folder self) (snd (os_path_split tar))"
    by blast
  have "tar = (if archive then archive_name file else file)"
  proof (cases archive)
    case True
    with a have "archive_file file d = (Inr tar, d1)" by simp
    then show ?thesis using True archive_file_Inr(1) by simp
  next
    case False
    with a show ?thesis by simp
  qed
  then show ?thesis using u by (simp add: snd_split_basename)
qed

lemma upload_file_Inl:
  assumes a: "(if archive then archive_file file d else (Inr file, d)) = (Inr tar, d1)"
    and f: "upload_from_filename (bucket self) (remote_key (folder self) (os_path_basename tar)) tar (d1, r)
            = (Inl e, w')"
  shows "upload_file self file archive (d, r) = (Inl e, w')"
proof -
  have s1: "(if archive then on_disk (archive_file file) else ret file) (d, r) = (Inr tar, (d1, r))"
    using a by (cases archive) (simp_all add: on_disk_apply ret_def prod_eq_iff)
  show ?thesis
    unfolding upload_file_def
    by (simp add: bind_def s1 split_beta Let_def snd_split_basename f)
qed

lemma extract_file_single:
  assumes "files d path = Some (Tar lvl [(name, c)])"
  shows "extract_file path d =
     (Inr (os_path_join (fst (os_path_split path)) name),
      d\<lparr>files := ((files d)(os_path_join (fst (os_path_split path)) name \<mapsto> c))(path := None)\<rparr>)"
  using assms
  by (simp add: extract_file_def bind_def tarfile_open_Tar throw_def ret_def remove_if_exists_def
      os_path_exists_def os_remove_def write_file_def split: prod.splits)

text \<open>
  Archiving an existing file whose archive path is another path: the archive holds the
  file as its only member, under the base name, and the file itself is not touched.
\<close>

lemma archive_file_other_name:
  assumes "files d path = Some c" and "archive_name path \<noteq> path"
  shows "archive_file path d =
     (Inr (archive_name path),
      d\<lparr>files := (files d)(archive_name path \<mapsto> Tar 5 [(os_path_basename path, c)])\<rparr>)"
  using assms
  by (auto simp: archive_file_def archive_name_def split_beta Let_def read_file_def write_file_def)

lemma dot_name_differs:
  assumes "\<forall>ch \<in> set ext. is_word ch"
  shows "stem @ ''.'' @ ext \<noteq> stem @ ''.tar.gz''"
proof
  assume "stem @ ''.'' @ ext = stem @ ''.tar.gz''"
  then have "ext = ''tar.gz''" by simp
  then have "CHR ''.'' \<in> set ext" by simp
  then show False using assms not_word_dot by blast
qed

section \<open>The claims\<close>

subsection \<open>Upload\<close>

text \<open>
  Claim C1. Whenever \<^verbatim>\<open>upload_file\<close> returns, the local disk it leaves is the disk it
  started from with the caller's file removed and, for \<^verbatim>\<open>archive=True\<close>, the
  archive file removed as well; every other file and every directory is as before.
  Without archiving the transfer unit is the file itself, so the one removal is the
  caller's file.
\<close>

theorem upload_file_success_removes_local_files:
  assumes "upload_file self file archive (d, r) = (Inr url, (d', r'))"
  shows "d' = d\<lparr>files := (files d)(file := None,
                    (if archive then archive_name file else file) := None)\<rparr>"
proof -
  from upload_file_success [OF assms] obtain tar d1 where
    a: "(if archive then archive_file file d else (Inr file, d)) = (Inr tar, d1)"
    and d': "d' = d1\<lparr>files := (files d1)(file := None, tar := None)\<rparr>"
    by blast
  show ?thesis
  proof (cases archive)
    case False
    with a have "tar = file" "d1 = d" by simp_all
    then show ?thesis using False d' by simp
  next
    case True
    with a have af: "archive_file file d = (Inr tar, d1)" by simp
    have t: "tar = archive_name file" and dd: "dirs d1 = dirs d"
      and fr: "\<forall>p. p \<noteq> tar \<longrightarrow> files d1 p = files d p"
      using archive_file_Inr [OF af] by auto
    have "files d' = (files d)(file := None, tar := None)"
      using fr by (auto simp: d' fun_eq_iff)
    moreover have "dirs d' = dirs d" using dd by (simp add: d')
    ultimately show ?thesis using True t by (simp add: disk.equality)
  qed
qed

text \<open>
  The scenario of the specification: folder \<^verbatim>\<open>backups\<close>, file \<^verbatim>\<open>report.csv\<close>,
  \<^verbatim>\<open>archive=True\<close>.
\<close>

theorem upload_file_success_removes_local_files_witness:
  "fst (upload_file \<lparr>bucket = memory_bucket None, folder = Some ''backups''\<rparr> ''report.csv'' True
          (disk_of [(''report.csv'', Raw ''abc'')] [], Map.empty)) = Inr ''backups/report.tar.gz''
   \<and> files (fst (snd (upload_file \<lparr>bucket = memory_bucket None, folder = Some ''backups''\<rparr>
          ''report.csv'' True (disk_of [(''report.csv'', Raw ''abc'')] [], Map.empty)))) ''report.csv'' = None
   \<and> files (fst (snd (upload_file \<lparr>bucket = memory_bucket None, folder = Some ''backups''\<rparr>
          ''report.csv'' True (disk_of [(''report.csv'', Raw ''abc'')] [], Map.empty)))) ''report.tar.gz'' = None"
proof -
  define U where "U = upload_file \<lparr>bucket = memory_bucket None, folder = Some ''backups''\<rparr>
          ''report.csv'' True (disk_of [(''report.csv'', Raw ''abc'')] [], Map.empty)"
  have e: "fst U = Inr ''backups/report.tar.gz''" unfolding U_def by code_simp
  have n: "archive_name ''report.csv'' = ''report.tar.gz''" by code_simp
  have "U = (Inr ''backups/report.tar.gz'', (fst (snd U), snd (snd U)))"
    using e by (simp add: prod_eq_iff)
  from upload_file_success_removes_local_files [OF this [unfolded U_def]]
  have "fst (snd U) = (disk_of [(''report.csv'', Raw ''abc'')] [])\<lparr>files :=
      (files (disk_of [(''report.csv'', Raw ''abc'')] []))(''report.csv'' := None, ''report.tar.gz'' := None)\<rparr>"
    by (simp add: n U_def)
  then have "files (fst (snd U)) ''report.csv'' = None" "files (fst (snd U)) ''report.tar.gz'' = None"
    by simp_all
  then show ?thesis using e unfolding U_def by simp
qed

text \<open>
  Claim C4, as stated, promises the key \<^verbatim>\<open>folder + "/" + baseName\<close> whenever a folder
  was given to the constructor. A client constructed with the empty string as folder
  returns the bare base name instead: the key of \<^verbatim>\<open>a.txt\<close> is \<^verbatim>\<open>a.txt\<close>, not
  \<^verbatim>\<open>/a.txt\<close>.
\<close>

theorem upload_file_empty_folder_key_counterexample:
  "fst (upload_file \<lparr>bucket = memory_bucket None, folder = Some ''''\<rparr> ''a.txt'' False
          (disk_of [(''a.txt'', Raw ''x'')] [], Map.empty)) = Inr ''a.txt''
   \<and> fst (upload_file \<lparr>bucket = memory_bucket None, folder = Some ''''\<rparr> ''a.txt'' False
          (disk_of [(''a.txt'', Raw ''x'')] [], Map.empty))
       \<noteq> Inr ('''' @ ''/'' @ os_path_basename ''a.txt'')"
  by code_simp

text \<open>
  Claim C4, amended. Whenever \<^verbatim>\<open>upload_file\<close> returns, the key it returns is the base
  name of the transfer unit (the archive for \<^verbatim>\<open>archive=True\<close>, the file itself
  otherwise) when the folder is \<^verbatim>\<open>None\<close> or the empty string, and the folder, a
  slash and that base name when the folder is a non-empty string.
\<close>

theorem upload_file_returns_remote_key:
  assumes "upload_file self file archive (d, r) = (Inr url, w')"
  shows "url = (let base = os_path_basename (if archive then archive_name file else file)
                in case folder self of
                     None \<Rightarrow> base
                   | Some f \<Rightarrow> if f = [] then base else f @ ''/'' @ base)"
  using upload_file_key [OF assms]
  by (simp add: remote_key_def Let_def split: option.splits)

theorem upload_file_returns_remote_key_witness:
  "fst (upload_file \<lparr>bucket = memory_bucket None, folder = Some ''data''\<rparr> ''d/a.c'' False
          (disk_of [(''d/a.c'', Raw ''x'')] [''d''], Map.empty)) = Inr ''data/a.c''
   \<and> ''data/a.c'' = ''data'' @ ''/'' @ os_path_basename ''d/a.c''"
proof -
  define U where "U = upload_file \<lparr>bucket = memory_bucket None, folder = Some ''data''\<rparr> ''d/a.c'' False
          (disk_of [(''d/a.c'', Raw ''x'')] [''d''], Map.empty)"
  have e: "fst U = Inr ''data/a.c''" unfolding U_def by code_simp
  then have "U = (Inr ''data/a.c'', snd U)" by (simp add: prod_eq_iff)
  from upload_file_returns_remote_key [OF this [unfolded U_def]]
  have "''data/a.c'' = ''data'' @ ''/'' @ os_path_basename ''d/a.c''" by simp
  then show ?thesis using e unfolding U_def by simp
qed

text \<open>
  Claim C10. A client whose folder is the empty string uploads exactly as a client
  without folder does: same result, same disk, same remote state. In particular the key
  it returns is the bare base name of the transfer unit, with no leading slash.
\<close>

theorem upload_file_empty_folder_as_none:
  assumes "folder self = Some ''''"
  shows "upload_file self file archive w = upload_file (self\<lparr>folder := None\<rparr>) file archive w
     \<and> (\<forall>url w'. upload_file self file archive w = (Inr url, w') \<longrightarrow>
           url = os_path_basename (if archive then archive_name file else file))"
proof -
  have 1: "upload_file self file archive w = upload_file (self\<lparr>folder := None\<rparr>) file archive w"
    using assms by (simp add: upload_file_def remote_key_def)
  have 2: "url = os_path_basename (if archive then archive_name file else file)"
    if "upload_file self file archive w = (Inr url, w')" for url w'
  proof -
    obtain d r where w: "w = (d, r)" by (cases w)
    from upload_file_key [OF that [unfolded w]] show ?thesis
      using assms by (simp add: remote_key_def)
  qed
  show ?thesis using 1 2 by blast
qed

theorem upload_file_empty_folder_as_none_witness:
  "folder \<lparr>bucket = memory_bucket None, folder = Some ''''\<rparr> = Some ''''
   \<and> upload_file \<lparr>bucket = memory_bucket None, folder = Some ''''\<rparr> ''d/a.c'' False
        (disk_of [(''d/a.c'', Raw ''x'')] [''d''], Map.empty)
     = upload_file \<lparr>bucket = memory_bucket None, folder = None\<rparr> ''d/a.c'' False
        (disk_of [(''d/a.c'', Raw ''x'')] [''d''], Map.empty)
   \<and> fst (upload_file \<lparr>bucket = memory_bucket None, folder = Some ''''\<rparr> ''d/a.c'' False
        (disk_of [(''d/a.c'', Raw ''x'')] [''d''], Map.empty)) = Inr ''a.c''"
proof -
  define c where "c = \<lparr>bucket = memory_bucket None, folder = Some ''''\<rparr>"
  define w where "w = (disk_of [(''d/a.c'', Raw ''x'')] [''d''], (Map.empty :: string \<Rightarrow> content option))"
  have h: "folder c = Some ''''" by (simp add: c_def)
  have e: "fst (upload_file c ''d/a.c'' False w) = Inr ''a.c''" unfolding c_def w_def by code_simp
  from upload_file_empty_folder_as_none [OF h, of "''d/a.c''" False w]
  have "upload_file c ''d/a.c'' False w = upload_file (c\<lparr>folder := None\<rparr>) ''d/a.c'' False w"
    by blast
  then show ?thesis using e h unfolding c_def w_def by simp
qed

text \<open>
  Claim C6. When the transfer step \<^verbatim>\<open>blob.upload_from_filename(tar)\<close> raises,
  \<^verbatim>\<open>upload_file\<close> raises the same exception and runs no cleanup: the disk is the one
  the archiving step left. It differs from the initial disk at most at the archive path;
  a file that was on disk is still there, and for \<^verbatim>\<open>archive=True\<close> the archive
  that was created is there too.
\<close>

theorem upload_file_transfer_failure_keeps_files:
  assumes a: "(if archive then archive_file file d else (Inr file, d)) = (Inr tar, d1)"
    and f: "upload_from_filename (bucket self) (remote_key (folder self) (os_path_basename tar)) tar (d1, r)
            = (Inl e, w')"
  shows "upload_file self file archive (d, r) = (Inl e, w') \<and> fst w' = d1
         \<and> (\<forall>p. p \<noteq> tar \<longrightarrow> files d1 p = files d p)
         \<and> (files d file \<noteq> None \<longrightarrow> files d1 file \<noteq> None)
         \<and> (archive \<longrightarrow> (\<exists>ms. files d1 tar = Some (Tar 5 ms)))
         \<and> (\<not> archive \<longrightarrow> d1 = d)"
proof -
  have 1: "upload_file self file archive (d, r) = (Inl e, w')"
    using a f by (rule upload_file_Inl)
  have "fst (snd (Inl e :: exn + unit, w')) = d1"
    unfolding f [symmetric] by (rule upload_from_filename_disk)
  then have 2: "fst w' = d1" by simp
  show ?thesis
  proof (cases archive)
    case False
    with a have "d1 = d" "tar = file" by simp_all
    then show ?thesis using 1 2 False by simp
  next
    case True
    with a have af: "archive_file file d = (Inr tar, d1)" by simp
    show ?thesis using 1 2 True archive_file_Inr [OF af] by simp
  qed
qed

theorem upload_file_transfer_failure_keeps_files_witness:
  "fst (upload_file \<lparr>bucket = memory_bucket (Some (SdkError ''timeout'')), folder = None\<rparr> ''a.c'' True
          (disk_of [(''a.c'', Raw ''x'')] [], Map.empty)) = Inl (SdkError ''timeout'')
   \<and> files (fst (snd (upload_file \<lparr>bucket = memory_bucket (Some (SdkError ''timeout'')), folder = None\<rparr>
          ''a.c'' True (disk_of [(''a.c'', Raw ''x'')] [], Map.empty)))) ''a.c'' = Some (Raw ''x'')
   \<and> files (fst (snd (upload_file \<lparr>bucket = memory_bucket (Some (SdkError ''timeout'')), folder = None\<rparr>
          ''a.c'' True (disk_of [(''a.c'', Raw ''x'')] [], Map.empty)))) ''a.tar.gz''
       = Some (Tar 5 [(''a.c'', Raw ''x'')])"
proof -
  define c where "c = \<lparr>bucket = memory_bucket (Some (SdkError ''timeout'')), folder = None\<rparr>"
  define d0 where "d0 = disk_of [(''a.c'', Raw ''x'')] []"
  define d1 where "d1 = snd (archive_file ''a.c'' d0)"
  define r0 where "r0 = (Map.empty :: string \<Rightarrow> content option)"
  have t: "fst (archive_file ''a.c'' d0) = Inr ''a.tar.gz''" unfolding d0_def by code_simp
  have a: "(if True then archive_file ''a.c'' d0 else (Inr ''a.c'', d0)) = (Inr ''a.tar.gz'', d1)"
    using t by (simp add: d1_def prod_eq_iff)
  have fa: "files d1 ''a.tar.gz'' = Some (Tar 5 [(''a.c'', Raw ''x'')])"
    unfolding d1_def d0_def by code_simp
  have f: "upload_from_filename (bucket c) (remote_key (folder c) (os_path_basename ''a.tar.gz''))
             ''a.tar.gz'' (d1, r0) = (Inl (SdkError ''timeout''), (d1, r0))"
    by (simp add: upload_from_filename_def bind_def on_disk_apply on_remote_apply read_file_def fa
        c_def memory_bucket_def)
  have o: "files d0 ''a.c'' = Some (Raw ''x'')" by (simp add: d0_def disk_of_def)
  have ne: "''a.c'' \<noteq> ''a.tar.gz''" by simp
  from upload_file_transfer_failure_keeps_files [OF a f]
  have u: "upload_file c ''a.c'' True (d0, r0) = (Inl (SdkError ''timeout''), (d1, r0))"
    and k: "\<forall>p. p \<noteq> ''a.tar.gz'' \<longrightarrow> files d1 p = files d0 p"
    by blast+
  from k ne o have "files d1 ''a.c'' = Some (Raw ''x'')" by simp
  then show ?thesis using u fa unfolding c_def d0_def r0_def by simp
qed

subsection \<open>Extraction\<close>

text \<open>
  Claim C2. On an archive with no member or with more than one member,
  \<^verbatim>\<open>_extract\<close> raises \<^verbatim>\<open>FileNotFoundError('Cant recognize name of file')\<close> and
  leaves the disk as it was: nothing is extracted and the archive is not removed.
\<close>

theorem extract_rejects_other_member_counts:
  assumes "files d path = Some (Tar lvl ms)" and "length ms \<noteq> 1"
  shows "extract_file path d = (Inl (FileNotFoundError ''Cant recognize name of file''), d)"
  using assms
  by (simp add: extract_file_def bind_def tarfile_open_Tar throw_def split: prod.splits)

theorem extract_rejects_other_member_counts_witness:
  "files (disk_of [(''out/x.tar.gz'', Tar 5 [(''a'', Raw ''1''), (''b'', Raw ''2'')])] [''out'']) ''out/x.tar.gz''
     = Some (Tar 5 [(''a'', Raw ''1''), (''b'', Raw ''2'')])
   \<and> extract_file ''out/x.tar.gz'' (disk_of [(''out/x.tar.gz'', Tar 5 [(''a'', Raw ''1''), (''b'', Raw ''2'')])] [''out''])
     = (Inl (FileNotFoundError ''Cant recognize name of file''),
        disk_of [(''out/x.tar.gz'', Tar 5 [(''a'', Raw ''1''), (''b'', Raw ''2'')])] [''out''])"
proof -
  have h: "files (disk_of [(''out/x.tar.gz'', Tar 5 [(''a'', Raw ''1''), (''b'', Raw ''2'')])] [''out'']) ''out/x.tar.gz''
     = Some (Tar 5 [(''a'', Raw ''1''), (''b'', Raw ''2'')])"
    by (simp add: disk_of_def)
  have l: "length [(''a'', Raw ''1''), (''b'', Raw ''2'')] \<noteq> 1" by simp
  show ?thesis using h extract_rejects_other_member_counts [OF h l] by simp
qed

text \<open>
  Claim C3. On an archive with exactly one member, \<^verbatim>\<open>_extract\<close> returns the parent
  directory of the archive joined with the stored name of the member, and the disk it
  leaves is the initial one with the member written at that joined path and the archive
  path removed afterwards.
\<close>

theorem extract_single_member:
  assumes "files d path = Some (Tar lvl [(name, c)])"
  shows "extract_file path d =
     (Inr (os_path_join (fst (os_path_split path)) name),
      d\<lparr>files := ((files d)(os_path_join (fst (os_path_split path)) name \<mapsto> c))(path := None)\<rparr>)"
  using assms by (rule extract_file_single)

theorem extract_single_member_witness:
  "files (disk_of [(''out/x.tar.gz'', Tar 5 [(''a.c'', Raw ''1'')])] [''out'']) ''out/x.tar.gz''
     = Some (Tar 5 [(''a.c'', Raw ''1'')])
   \<and> fst (extract_file ''out/x.tar.gz'' (disk_of [(''out/x.tar.gz'', Tar 5 [(''a.c'', Raw ''1'')])] [''out'']))
       = Inr ''out/a.c''
   \<and> files (snd (extract_file ''out/x.tar.gz''
         (disk_of [(''out/x.tar.gz'', Tar 5 [(''a.c'', Raw ''1'')])] [''out'']))) ''out/a.c'' = Some (Raw ''1'')
   \<and> files (snd (extract_file ''out/x.tar.gz''
         (disk_of [(''out/x.tar.gz'', Tar 5 [(''a.c'', Raw ''1'')])] [''out'']))) ''out/x.tar.gz'' = None"
proof -
  have h: "files (disk_of [(''out/x.tar.gz'', Tar 5 [(''a.c'', Raw ''1'')])] [''out'']) ''out/x.tar.gz''
     = Some (Tar 5 [(''a.c'', Raw ''1'')])"
    by (simp add: disk_of_def)
  have j: "os_path_join (fst (os_path_split ''out/x.tar.gz'')) ''a.c'' = ''out/a.c''" by code_simp
  show ?thesis using h extract_single_member [OF h] by (simp add: j)
qed

subsection \<open>Download and delete\<close>

text \<open>
  Claim C5, as stated, promises the translated not-found error for every key that is
  missing from the bucket. The directory step and the opening of the local file come
  first and raise on their own: with a regular file as \<^verbatim>\<open>to_path\<close> the call fails
  with \<^verbatim>\<open>NotADirectoryError\<close>, and with a \<^verbatim>\<open>to_path\<close> whose parent is missing
  \<^verbatim>\<open>os.mkdir\<close> raises its own \<^verbatim>\<open>[Errno 2]\<close> error, in both cases before the
  bucket is asked.
\<close>

theorem download_file_local_failure_counterexample:
  "fst (blob_download (bucket \<lparr>bucket = memory_bucket None, folder = None\<rparr>) ''k'' Map.empty)
     = Inl NotFound
   \<and> fst (download_file \<lparr>bucket = memory_bucket None, folder = None\<rparr> ''k'' ''f'' False
          (disk_of [(''f'', Raw ''x'')] [], Map.empty)) = Inl NotADirectoryError
   \<and> fst (download_file \<lparr>bucket = memory_bucket None, folder = None\<rparr> ''k'' ''a/b'' False
          (disk_of [] [], Map.empty))
       = Inl (FileNotFoundError ''[Errno 2] No such file or directory'')
   \<and> fst (download_file \<lparr>bucket = memory_bucket None, folder = None\<rparr> ''k'' ''a/b'' False
          (disk_of [] [], Map.empty))
       \<noteq> Inl (FileNotFoundError ''File not found on server'')"
  by code_simp

text \<open>
  Claim C5, amended. When the destination directory exists or \<^verbatim>\<open>os.mkdir\<close> creates
  it, the local target file can be opened, and the SDK answers the download of the key
  with its \<^verbatim>\<open>NotFound\<close> exception, as it does for a key that is not in the bucket,
  \<^verbatim>\<open>download_file\<close> raises \<^verbatim>\<open>FileNotFoundError('File not found on server')\<close>
  in its place.
\<close>

theorem download_file_translates_not_found:
  assumes dir: "(if \<not> os_path_exists to_path d then os_mkdir to_path d else (Inr (), d)) = (Inr (), d1)"
    and opn: "fst (open_wb (os_path_join to_path (os_path_basename url)) d1) = Inr ()"
    and nf: "fst (blob_download (bucket self) url r) = Inl NotFound"
  shows "fst (download_file self url to_path extract (d, r))
           = Inl (FileNotFoundError ''File not found on server'')"
proof -
  have m: "on_disk (\<lambda>d. if \<not> os_path_exists to_path d then os_mkdir to_path d else (Inr (), d)) (d, r)
        = (Inr (), (d1, r))"
    using dir by (simp add: on_disk_apply)
  define path where "path = os_path_join to_path (snd (os_path_split url))"
  have "fst (open_wb path d1) = Inr ()" using opn by (simp add: path_def snd_split_basename)
  then have "fst (download_to_filename (bucket self) url path (d1, r)) = Inl NotFound"
    using nf by (rule download_to_filename_Inl)
  then obtain w' where dl: "download_to_filename (bucket self) url path (d1, r) = (Inl NotFound, w')"
    by (cases "download_to_filename (bucket self) url path (d1, r)") simp
  show ?thesis
    unfolding download_file_def
    by (simp add: bind_def m split_beta Let_def path_def [symmetric] dl)
qed

text \<open>
  The scenario of the specification: the key is missing from an empty bucket and the
  directory \<^verbatim>\<open>./out\<close> is created by the call.
\<close>

theorem download_file_translates_not_found_witness:
  "fst (open_wb (os_path_join ''./out'' (os_path_basename ''backups/report.tar.gz''))
          (snd (os_mkdir ''./out'' (disk_of [] [])))) = Inr ()
   \<and> fst (blob_download (bucket \<lparr>bucket = memory_bucket None, folder = None\<rparr>) ''backups/report.tar.gz'' Map.empty)
     = Inl NotFound
   \<and> fst (download_file \<lparr>bucket = memory_bucket None, folder = None\<rparr> ''backups/report.tar.gz'' ''./out'' True
          (disk_of [] [], Map.empty)) = Inl (FileNotFoundError ''File not found on server'')"
proof -
  define d1 where "d1 = snd (os_mkdir ''./out'' (disk_of [] []))"
  have e: "\<not> os_path_exists ''./out'' (disk_of [] [])" by code_simp
  have k: "fst (os_mkdir ''./out'' (disk_of [] [])) = Inr ()" by code_simp
  have h1: "(if \<not> os_path_exists ''./out'' (disk_of [] []) then os_mkdir ''./out'' (disk_of [] [])
             else (Inr (), disk_of [] [])) = (Inr (), d1)"
    using e k by (simp add: d1_def prod_eq_iff)
  have h2: "fst (open_wb (os_path_join ''./out'' (os_path_basename ''backups/report.tar.gz'')) d1) = Inr ()"
    unfolding d1_def by code_simp
  have h3: "fst (blob_download (bucket \<lparr>bucket = memory_bucket None, folder = None\<rparr>)
             ''backups/report.tar.gz'' Map.empty) = Inl NotFound"
    by (simp add: memory_bucket_def)
  show ?thesis
    using h2 h3 download_file_translates_not_found [OF h1 h2 h3] by (simp add: d1_def)
qed

text \<open>
  The other half of the amendment: an exception of the directory step or of the local
  \<^verbatim>\<open>open\<close> is the exception of \<^verbatim>\<open>download_file\<close>.
\<close>

lemma download_file_directory_step_fails:
  assumes "(if \<not> os_path_exists to_path d then os_mkdir to_path d else (Inr (), d)) = (Inl e, d1)"
  shows "download_file self url to_path extract (d, r) = (Inl e, (d1, r))"
  using assms unfolding download_file_def by (simp add: bind_def on_disk_apply)

lemma download_file_open_fails:
  assumes dir: "(if \<not> os_path_exists to_path d then os_mkdir to_path d else (Inr (), d)) = (Inr (), d1)"
    and opn: "open_wb (os_path_join to_path (os_path_basename url)) d1 = (Inl e, d2)"
  shows "download_file self url to_path extract (d, r) = (Inl e, (d2, r))"
proof -
  have m: "on_disk (\<lambda>d. if \<not> os_path_exists to_path d then os_mkdir to_path d else (Inr (), d)) (d, r)
        = (Inr (), (d1, r))"
    using dir by (simp add: on_disk_apply)
  have ne: "e \<noteq> NotFound" using opn by (rule open_wb_not_NotFound)
  show ?thesis
    unfolding download_file_def
    by (simp add: bind_def m split_beta Let_def snd_split_basename
        download_to_filename_open_fails [OF opn] ne)
qed

text \<open>
  Claim C9. \<^verbatim>\<open>delete_file\<close> is the SDK's deletion and nothing else: whatever the
  deletion returns or raises, \<^verbatim>\<open>NotFound\<close> included, is the outcome of
  \<^verbatim>\<open>delete_file\<close>, the remote state is the one the SDK left, and the local disk is
  not touched. No other SDK operation is issued before it.
\<close>

theorem delete_file_propagates:
  assumes "blob_delete (bucket self) url r = (res, r')"
  shows "delete_file self url (d, r) = (res, (d, r'))"
  using assms by (simp add: delete_file_def on_remote_def)

theorem delete_file_propagates_witness:
  "blob_delete (bucket \<lparr>bucket = memory_bucket None, folder = None\<rparr>) ''backups/report.tar.gz'' Map.empty
     = (Inl NotFound, Map.empty)
   \<and> delete_file \<lparr>bucket = memory_bucket None, folder = None\<rparr> ''backups/report.tar.gz''
        (disk_of [] [], Map.empty) = (Inl NotFound, (disk_of [] [], Map.empty))"
proof -
  have h: "blob_delete (bucket \<lparr>bucket = memory_bucket None, folder = None\<rparr>) ''backups/report.tar.gz'' Map.empty
     = (Inl NotFound, Map.empty)"
    by (simp add: memory_bucket_def)
  show ?thesis using h delete_file_propagates [OF h] by simp
qed

subsection \<open>Archiving\<close>

text \<open>
  Claim C7 at the file name \<^verbatim>\<open>report(1)\<close>, which ends with a character that is not
  a word character. The pattern finds no match, the output name is the input name, and
  \<^verbatim>\<open>gzopen\<close> empties the input file itself; \<^verbatim>\<open>tar.add\<close> then skips it as the
  archive being written. The call returns the input path, which now holds an archive
  without members: the content of the input is lost.
\<close>

theorem archive_file_unmatched_name_destroys_input:
  "files (disk_of [(''report(1)'', Raw ''hello'')] []) ''report(1)'' = Some (Raw ''hello'')
   \<and> fst (archive_file ''report(1)'' (disk_of [(''report(1)'', Raw ''hello'')] [])) = Inr ''report(1)''
   \<and> files (snd (archive_file ''report(1)'' (disk_of [(''report(1)'', Raw ''hello'')] []))) ''report(1)''
       = Some (Tar 5 [])"
  by code_simp

text \<open>
  Claim C8, as stated, composes archive, extract and archive again. The value of that
  chain is the path of the archive, and the file there is an archive of the input, not
  a copy of it.
\<close>

theorem archive_extract_archive_counterexample:
  "fst (archive_extract_archive ''r.csv'' (disk_of [(''r.csv'', Raw ''abc'')] [])) = Inr ''r.tar.gz''
   \<and> files (snd (archive_extract_archive ''r.csv'' (disk_of [(''r.csv'', Raw ''abc'')] []))) ''r.tar.gz''
       = Some (Tar 5 [(''r.csv'', Raw ''abc'')])
   \<and> files (snd (archive_extract_archive ''r.csv'' (disk_of [(''r.csv'', Raw ''abc'')] []))) ''r.tar.gz''
       \<noteq> files (disk_of [(''r.csv'', Raw ''abc'')] []) ''r.csv''"
  by code_simp

text \<open>
  Claim C8, amended. For a file whose name is a stem, a dot and a non-empty extension of
  word characters, archiving it and extracting the archive returns the parent directory
  joined with the file's base name; the base name of that path is the base name of the
  input, the file there has the content of the input, and the archive is gone.
\<close>

theorem extract_archived_restores_file:
  assumes c: "files d path = Some c"
    and n: "os_path_basename path = stem @ ''.'' @ ext"
    and e: "ext \<noteq> []" and w: "\<forall>ch \<in> set ext. is_word ch"
  shows "fst (extract_archived path d)
           = Inr (os_path_join (fst (os_path_split path)) (os_path_basename path))
     \<and> os_path_basename (os_path_join (fst (os_path_split path)) (os_path_basename path))
           = os_path_basename path
     \<and> files (snd (extract_archived path d))
           (os_path_join (fst (os_path_split path)) (os_path_basename path)) = Some c
     \<and> files (snd (extract_archived path d)) (archive_name path) = None"
proof -
  define hdir where "hdir = fst (os_path_split path)"
  define tname where "tname = snd (os_path_split path)"
  define out where "out = stem @ ''.tar.gz''"
  define A where "A = os_path_join hdir out"
  define P where "P = os_path_join hdir tname"
  have tl: "tname = stem @ ''.'' @ ext" using n by (simp add: tname_def snd_split_basename)
  have base: "os_path_basename path = tname" by (simp add: tname_def snd_split_basename)
  have ns_tl: "sep \<notin> set tname" unfolding tname_def by (rule tail_no_sep)
  then have ns_out: "sep \<notin> set out" by (simp add: tl out_def sep_def)
  have rs: "re_sub_ext tname = out" unfolding tl out_def using e w by (rule re_sub_ext_conventional)
  have an: "archive_name path = A"
    by (simp add: archive_name_def A_def hdir_def tname_def [symmetric] rs)
  have neq: "tname \<noteq> out" unfolding tl out_def using w by (rule dot_name_differs)
  have sA: "os_path_split A = (hdir, out)"
    unfolding A_def hdir_def using ns_out by (rule split_join_head)
  have pA: "path \<noteq> A"
  proof
    assume "path = A"
    then have "snd (os_path_split path) = out" using sA by simp
    then show False using neq by (simp add: tname_def)
  qed
  have PA: "P \<noteq> A"
    using join_inject [OF ns_tl ns_out, of hdir] neq unfolding P_def A_def by blast
  define d1 where "d1 = d\<lparr>files := (files d)(A \<mapsto> Tar 5 [(tname, c)])\<rparr>"
  have af: "archive_file path d = (Inr A, d1)"
    using archive_file_other_name [OF c] pA by (simp add: an base d1_def)
  have fA: "files d1 A = Some (Tar 5 [(tname, c)])" by (simp add: d1_def)
  have ex: "extract_file A d1 = (Inr P, d1\<lparr>files := ((files d1)(P \<mapsto> c))(A := None)\<rparr>)"
    using extract_file_single [OF fA] by (simp add: sA P_def)
  have r: "extract_archived path d = (Inr P, d1\<lparr>files := ((files d1)(P \<mapsto> c))(A := None)\<rparr>)"
    by (simp add: extract_archived_def bind_def af ex)
  have bp: "os_path_basename P = tname"
    unfolding P_def hdir_def using ns_tl by (rule basename_join)
  show ?thesis
    using PA bp by (simp add: r an base P_def [symmetric] hdir_def [symmetric])
qed

theorem extract_archived_restores_file_witness:
  "files (disk_of [(''d/r.csv'', Raw ''abc'')] [''d'']) ''d/r.csv'' = Some (Raw ''abc'')
   \<and> os_path_basename ''d/r.csv'' = ''r'' @ ''.'' @ ''csv''
   \<and> fst (extract_archived ''d/r.csv'' (disk_of [(''d/r.csv'', Raw ''abc'')] [''d''])) = Inr ''d/r.csv''
   \<and> files (snd (extract_archived ''d/r.csv'' (disk_of [(''d/r.csv'', Raw ''abc'')] [''d'']))) ''d/r.csv''
       = Some (Raw ''abc'')
   \<and> files (snd (extract_archived ''d/r.csv'' (disk_of [(''d/r.csv'', Raw ''abc'')] [''d'']))) ''d/r.tar.gz''
       = None"
proof -
  have h1: "files (disk_of [(''d/r.csv'', Raw ''abc'')] [''d'']) ''d/r.csv'' = Some (Raw ''abc'')"
    by (simp add: disk_of_def)
  have h2: "os_path_basename ''d/r.csv'' = ''r'' @ ''.'' @ ''csv''" by code_simp
  have h3: "''csv'' \<noteq> []" by simp
  have h4: "\<forall>ch \<in> set ''csv''. is_word ch" by (simp add: is_word_def)
  have j: "os_path_join (fst (os_path_split ''d/r.csv'')) (os_path_basename ''d/r.csv'') = ''d/r.csv''"
    by code_simp
  have a: "archive_name ''d/r.csv'' = ''d/r.tar.gz''" by code_simp
  note t = extract_archived_restores_file [OF h1 h2 h3 h4, unfolded j a]
  show ?thesis using h1 h2 t by simp
qed

end
